theory Spec2Isabelle
  imports Complex_Main
begin

section \<open>The gallery viewer: data\<close>

text \<open>
  The props of \<^verbatim>\<open>GalleryViewer\<close>. JavaScript numbers that hold indices are modelled as
  \<^typ>\<open>int\<close>: doubles are exact on the integers up to \<open>2 ^ 53\<close> in absolute value,
  which covers every array length (below \<open>2 ^ 32\<close>) and every index the handlers can
  produce from one. Pixel coordinates are doubles as well; they are modelled as
  \<^typ>\<open>real\<close>, and where the code computes with them the rounding is written out.
  An optional callback prop is a flag that says whether the owner supplied it; calling
  it is recorded in the trace of effects a handler returns.
  \<^verbatim>\<open>onClose\<close> is a required prop and so has no flag.
\<close>

record GalleryImage =
  src :: string
  label :: string

record GalleryViewerProps =
  isOpen :: bool
  images :: "GalleryImage list"
  currentIndex :: int
  title :: string
  onPrevious :: bool
  onNext :: bool
  onIndexChange :: bool

datatype effect =
    PreventDefault
  | CallIndexChange int
  | CallPrevious
  | CallNext
  | CallClose

datatype js_error = TypeError

section \<open>The gallery viewer: handlers\<close>

text \<open>
  The remainder operator \<^verbatim>\<open>%\<close> of JavaScript truncates towards zero: the result has
  the sign of the dividend. The only use below has a divisor that is not zero (for a zero
  divisor JavaScript gives NaN; \<^verbatim>\<open>changeIndexBy\<close> returns before it gets there).
\<close>

definition js_rem :: "int \<Rightarrow> int \<Rightarrow> int" where
  "js_rem a b = sgn a * (\<bar>a\<bar> mod \<bar>b\<bar>)"

text \<open>
  \<^verbatim>\<open>const nextIndex = (currentIndex + delta + images.length) % images.length\<close>. The
  two sums of the code are sums of doubles; they are the integer sums below as long as
  the operands and the sums stay within \<open>2 ^ 53\<close> in absolute value, as they do for the
  deltas \<open>1\<close> and \<open>-1\<close> that the handlers pass. Beyond that the code rounds and this
  definition does not follow it.
\<close>

definition nextIndex :: "int \<Rightarrow> int \<Rightarrow> int \<Rightarrow> int" where
  "nextIndex cur delta n = js_rem (cur + delta + n) n"

definition changeIndexBy :: "GalleryViewerProps \<Rightarrow> int \<Rightarrow> effect list" where
  "changeIndexBy p delta =
     (if length (images p) = 0 then []
      else if onIndexChange p
        then [CallIndexChange (nextIndex (currentIndex p) delta (int (length (images p))))]
      else if delta < 0 \<and> onPrevious p then [CallPrevious]
      else if delta > 0 \<and> onNext p then [CallNext]
      else [])"

text \<open>The wheel listener; its argument is \<^verbatim>\<open>e.deltaY\<close>.\<close>

definition handleWheel :: "GalleryViewerProps \<Rightarrow> real \<Rightarrow> effect list" where
  "handleWheel p deltaY =
     (if \<not> isOpen p \<or> length (images p) \<le> 1 then []
      else PreventDefault # changeIndexBy p (if deltaY > 0 then 1 else - 1))"

text \<open>
  The touch handlers. The state is the ref \<^verbatim>\<open>touchStartX\<close> (\<open>None\<close> is null); the
  event is given by the \<^verbatim>\<open>clientX\<close> of its \<^verbatim>\<open>targetTouches\<close>, and reading
  \<^verbatim>\<open>targetTouches[0].clientX\<close> of an event without target touches throws.

  \<^verbatim>\<open>touchStartX.current - e.targetTouches[0].clientX\<close> subtracts two doubles: the result
  is the real difference rounded to a double. The rounding is the parameter \<open>rnd\<close> of the
  handler.
\<close>

definition onTouchStart :: "real list \<Rightarrow> js_error + real option" where
  "onTouchStart targetTouches =
     (case targetTouches of [] \<Rightarrow> Inl TypeError | x # _ \<Rightarrow> Inr (Some x))"

definition onTouchMove ::
  "(real \<Rightarrow> real) \<Rightarrow> GalleryViewerProps \<Rightarrow> real option \<Rightarrow> real list
     \<Rightarrow> js_error + (effect list \<times> real option)" where
  "onTouchMove rnd p touchStartX targetTouches =
     (case touchStartX of
        None \<Rightarrow> Inr ([], None)
      | Some s \<Rightarrow>
          (case targetTouches of
             [] \<Rightarrow> Inl TypeError
           | x # _ \<Rightarrow>
               (let diff = rnd (s - x) in
                if \<bar>diff\<bar> > 50
                then Inr (changeIndexBy p (if diff > 0 then 1 else - 1), None)
                else Inr ([], Some s))))"

definition onTouchEnd :: "real option \<Rightarrow> real option" where
  "onTouchEnd touchStartX = None"

text \<open>
  A run of \<^verbatim>\<open>touchmove\<close> events of one touch (no \<^verbatim>\<open>touchstart\<close> in between): the
  effects are collected in order, and a throwing handler ends the run.
\<close>

fun touchMoves ::
  "(real \<Rightarrow> real) \<Rightarrow> GalleryViewerProps \<Rightarrow> real option \<Rightarrow> real list list
     \<Rightarrow> js_error + (effect list \<times> real option)" where
  "touchMoves rnd p st [] = Inr ([], st)"
| "touchMoves rnd p st (e # es) =
     (case onTouchMove rnd p st e of
        Inl err \<Rightarrow> Inl err
      | Inr (out, st') \<Rightarrow>
          (case touchMoves rnd p st' es of
             Inl err \<Rightarrow> Inl err
           | Inr (out', st'') \<Rightarrow> Inr (out @ out', st'')))"

text \<open>
  A \<^verbatim>\<open>touchmove\<close> event of a touch that started at \<open>s\<close> whose computed difference
  does not exceed the threshold.
\<close>

definition withinThreshold :: "(real \<Rightarrow> real) \<Rightarrow> real \<Rightarrow> real list \<Rightarrow> bool" where
  "withinThreshold rnd s targetTouches =
     (case targetTouches of [] \<Rightarrow> False | x # _ \<Rightarrow> \<bar>rnd (s - x)\<bar> \<le> 50)"

text \<open>
  The callbacks a handler has made: \<^const>\<open>onTouchMove\<close> throws, if at all, while reading
  the event, before it calls anything.
\<close>

definition effectsOf :: "js_error + (effect list \<times> real option) \<Rightarrow> effect list" where
  "effectsOf r = (case r of Inl err \<Rightarrow> [] | Inr (out, st) \<Rightarrow> out)"

text \<open>The document-level key listener; its argument is \<^verbatim>\<open>e.key\<close>.\<close>

definition keyHandler :: "GalleryViewerProps \<Rightarrow> string \<Rightarrow> effect list" where
  "keyHandler p k =
     (if \<not> isOpen p then []
      else if k = ''ArrowLeft'' then PreventDefault # changeIndexBy p (- 1)
      else if k = ''ArrowRight'' then PreventDefault # changeIndexBy p 1
      else if k = ''Escape'' then [PreventDefault, CallClose]
      else [])"

text \<open>The click handler of the indicator dot with index \<open>idx\<close>.\<close>

definition dotOnClick :: "GalleryViewerProps \<Rightarrow> int \<Rightarrow> effect list" where
  "dotOnClick p idx =
     (if onIndexChange p then [CallIndexChange idx]
      else if idx \<noteq> currentIndex p
        then changeIndexBy p (if idx > currentIndex p then 1 else - 1)
      else [])"

section \<open>The gallery viewer: what is rendered\<close>

text \<open>
  The part of the rendered tree the navigation depends on: the image shown
  (\<^verbatim>\<open>images[currentIndex]?\<close>), the counter and the indices of the indicator dots.
  \<open>None\<close> is \<^verbatim>\<open>return null\<close>.
\<close>

record view =
  shown :: "GalleryImage option"
  counter :: "(int \<times> nat) option"
  dots :: "int list"

definition render :: "GalleryViewerProps \<Rightarrow> view option" where
  "render p =
     (if \<not> isOpen p \<or> length (images p) = 0 then None
      else Some \<lparr>
        shown = (if 0 \<le> currentIndex p \<and> currentIndex p < int (length (images p))
                 then Some (images p ! nat (currentIndex p)) else None),
        counter = (if length (images p) > 1
                   then Some (currentIndex p + 1, length (images p)) else None),
        dots = (if length (images p) > 1
                then map int [0 ..< length (images p)] else []) \<rparr>)"

text \<open>
  Direct selection as the page offers it: a click reaches \<^const>\<open>dotOnClick\<close> only
  through a dot that is rendered.
\<close>

definition selectDot :: "GalleryViewerProps \<Rightarrow> int \<Rightarrow> effect list" where
  "selectDot p idx =
     (case render p of
        None \<Rightarrow> []
      | Some v \<Rightarrow> if idx \<in> set (dots v) then dotOnClick p idx else [])"

fun isNavigation :: "effect \<Rightarrow> bool" where
  "isNavigation (CallIndexChange i) = True"
| "isNavigation CallPrevious = True"
| "isNavigation CallNext = True"
| "isNavigation PreventDefault = False"
| "isNavigation CallClose = False"

section \<open>The owner of the index\<close>

text \<open>
  \<^verbatim>\<open>GalleryViewer\<close> is a controlled component: \<^verbatim>\<open>currentIndex\<close> is a prop, and the
  component that owns it is not part of these sources. The owner is therefore a
  parameter: \<open>owner c e\<close> is the owner's index after the viewer has made the call \<open>e\<close>
  while the owner's index was \<open>c\<close>. A step is one \<^const>\<open>changeIndexBy\<close> followed by
  the render with the owner's new index.
\<close>

definition step ::
  "(int \<Rightarrow> effect \<Rightarrow> int) \<Rightarrow> GalleryViewerProps \<Rightarrow> int \<Rightarrow> GalleryViewerProps" where
  "step owner p delta = p\<lparr>currentIndex := foldl owner (currentIndex p) (changeIndexBy p delta)\<rparr>"

text \<open>The current index after each step of a sequence of steps, in order.\<close>

fun stepAll :: "(int \<Rightarrow> effect \<Rightarrow> int) \<Rightarrow> GalleryViewerProps \<Rightarrow> int list \<Rightarrow> int list" where
  "stepAll owner p [] = []"
| "stepAll owner p (d # ds) =
     currentIndex (step owner p d) # stepAll owner (step owner p d) ds"

text \<open>
  Modelled from the spec: an owner as the specification of the navigation controller
  describes it for \<^verbatim>\<open>onIndexChange(newIndex)\<close>, whose index becomes the index it is
  notified of. What it does at the other calls is not used.
\<close>

fun setIndex :: "int \<Rightarrow> effect \<Rightarrow> int" where
  "setIndex c (CallIndexChange i) = i"
| "setIndex c e = c"

text \<open>
  Modelled from the spec: an owner of \<open>n\<close> items that serves the legacy callbacks as
  well, as relative navigation with wrap-around: \<^verbatim>\<open>onNext()\<close> moves to the next index
  and \<^verbatim>\<open>onPrevious()\<close> to the previous one, modulo \<open>n\<close>.
\<close>

fun legacyOwner :: "int \<Rightarrow> int \<Rightarrow> effect \<Rightarrow> int" where
  "legacyOwner n c (CallIndexChange i) = i"
| "legacyOwner n c CallNext = (c + 1) mod n"
| "legacyOwner n c CallPrevious = (c - 1) mod n"
| "legacyOwner n c e = c"

section \<open>The zoomable maps: viewport transform configuration\<close>




section \<open>The zoomable maps: icon layout\<close>

text \<open>
  The state \<^verbatim>\<open>imageLayout\<close> of \<^verbatim>\<open>ZoomableMapContainer\<close>: the image's size and its
  offset from the container's top-left corner.
\<close>

record ImageLayout =
  imageWidth :: real
  imageHeight :: real
  offsetLeft :: real
  offsetTop :: real

text \<open>
  Modelled from the spec: the type \<^verbatim>\<open>MapIcon\<close> of \<^verbatim>\<open>utils/mapConfig\<close> is not part
  of the sources; these are the fields of the specification's icon description that the
  layout reads.
\<close>

record IconSpec =
  iconId :: string
  xPercent :: real
  yPercent :: real
  sizePixels :: real

record IconLayout =
  layoutId :: string
  pixelX :: real
  pixelY :: real
  pixelSize :: real
  zIndex :: nat

text \<open>
  Modelled from the spec: the component \<^verbatim>\<open>MapIconComponent\<close> (\<^verbatim>\<open>./MapIcon\<close>) is not
  part of the sources; only its call in \<^verbatim>\<open>ZoomableMapContainer\<close> is. The specification
  of the icon layout gives \<^verbatim>\<open>pixelX = imageOffsetX + (xPercent/100) * imageWidth\<close>,
  \<^verbatim>\<open>pixelY = imageOffsetY + (yPercent/100) * imageHeight\<close> and
  \<^verbatim>\<open>pixelSize = sizePixels * scale\<close>.
\<close>

definition MapIconComponent :: "IconSpec \<Rightarrow> ImageLayout \<Rightarrow> real \<Rightarrow> nat \<Rightarrow> IconLayout" where
  "MapIconComponent icon layout scale z = \<lparr>
     layoutId = iconId icon,
     pixelX = offsetLeft layout + (xPercent icon / 100) * imageWidth layout,
     pixelY = offsetTop layout + (yPercent icon / 100) * imageHeight layout,
     pixelSize = sizePixels icon * scale,
     zIndex = z \<rparr>"

text \<open>
  The call in \<^verbatim>\<open>MapContent\<close> of \<^verbatim>\<open>ZoomableMapContainer\<close>:
  \<^verbatim>\<open>Object.values(config.icons).map((icon, index) => <MapIconComponent ... zIndex={10 + index} />)\<close>;
  the list is \<^verbatim>\<open>Object.values(config.icons)\<close>.
\<close>

definition MapContent :: "IconSpec list \<Rightarrow> ImageLayout \<Rightarrow> real \<Rightarrow> IconLayout list" where
  "MapContent icons layout scale =
     map (\<lambda>(index, icon). MapIconComponent icon layout scale (10 + index)) (enumerate 0 icons)"

section \<open>The specification's words\<close>

text \<open>
  The step formula of the specification,
  \<^verbatim>\<open>((currentIndex + delta) % itemCount + itemCount) % itemCount\<close>, with the remainder
  operator of the language.
\<close>

definition spec_step :: "int \<Rightarrow> int \<Rightarrow> int \<Rightarrow> int" where
  "spec_step cur delta n = js_rem (js_rem (cur + delta) n + n) n"


section \<open>Arithmetic of the step\<close>

lemma js_rem_nonneg: "0 \<le> a \<Longrightarrow> 0 < n \<Longrightarrow> js_rem a n = a mod n"
  by (cases "a = 0") (simp_all add: js_rem_def)

lemma js_rem_neg: "a < 0 \<Longrightarrow> 0 < n \<Longrightarrow> js_rem a n = - ((- a) mod n)"
  by (simp add: js_rem_def)

lemma spec_step_mod: "0 < n \<Longrightarrow> spec_step cur delta n = (cur + delta) mod n"
proof (cases "0 \<le> cur + delta")
  case True
  assume n: "0 < n"
  with True have "js_rem (cur + delta) n = (cur + delta) mod n"
    by (rule js_rem_nonneg)
  moreover have "0 \<le> (cur + delta) mod n + n"
    using n by simp
  ultimately show ?thesis
    using n by (simp add: spec_step_def js_rem_nonneg)
next
  case False
  assume n: "0 < n"
  let ?r = "(- (cur + delta)) mod n"
  from False have neg: "cur + delta < 0" by simp
  have r: "0 \<le> ?r" "?r < n" using n by simp_all
  have "js_rem (cur + delta) n = - ?r"
    using neg n by (rule js_rem_neg)
  moreover have "0 \<le> - ?r + n" using r by simp
  moreover have "(- ?r + n) mod n = (cur + delta) mod n"
    by (metis minus_minus mod_add_self2 mod_minus_eq)
  ultimately show ?thesis
    using n by (simp add: spec_step_def js_rem_nonneg)
qed

lemma nextIndex_mod: "0 < n \<Longrightarrow> 0 \<le> cur + delta + n \<Longrightarrow> nextIndex cur delta n = (cur + delta) mod n"
  by (simp add: nextIndex_def js_rem_nonneg)

lemma nextIndex_range:
  "0 < n \<Longrightarrow> 0 \<le> cur + delta + n \<Longrightarrow> 0 \<le> nextIndex cur delta n \<and> nextIndex cur delta n < n"
  by (simp add: nextIndex_mod)

lemma step_direct:
  "onIndexChange p \<Longrightarrow> length (images p) \<noteq> 0 \<Longrightarrow> \<forall>c i. owner c (CallIndexChange i) = i \<Longrightarrow>
   step owner p d = p\<lparr>currentIndex := nextIndex (currentIndex p) d (int (length (images p)))\<rparr>"
  by (simp add: step_def changeIndexBy_def)

lemma touchMoves_reset: "touchMoves rnd p None es = Inr ([], None)"
  by (induction es) (simp_all add: onTouchMove_def)

lemma onTouchMove_within:
  "withinThreshold rnd s e \<Longrightarrow> onTouchMove rnd p (Some s) e = Inr ([], Some s)"
  by (cases e) (simp_all add: withinThreshold_def onTouchMove_def)

lemma touchMoves_within:
  "list_all (withinThreshold rnd s) pre \<Longrightarrow>
   touchMoves rnd p (Some s) (pre @ es) = touchMoves rnd p (Some s) es"
  by (induction pre) (simp_all add: onTouchMove_within split: sum.split)

lemma rnd_within:
  fixes rnd :: "real \<Rightarrow> real"
  assumes "mono rnd" and "rnd 50 = 50" and "rnd (- 50) = - 50" and "\<bar>d\<bar> \<le> 50"
  shows "\<bar>rnd d\<bar> \<le> 50"
proof -
  from assms(4) have "- 50 \<le> d" and "d \<le> 50" by simp_all
  with assms(1) have "rnd (- 50) \<le> rnd d" and "rnd d \<le> rnd 50"
    by (simp_all add: monoD)
  with assms(2,3) show ?thesis by simp
qed

lemma map_snd_enumerate_fun: "map (\<lambda>x. h (snd x)) (enumerate n xs) = map h xs"
  by (induction xs arbitrary: n) simp_all

section \<open>The step\<close>

text \<open>
  C1, as the code has it. For every itemCount \<open>\<ge> 1\<close> (an array length, so below
  \<open>2 ^ 32\<close>), every currentIndex in \<open>[0, itemCount - 1]\<close> and every integer delta with
  \<open>- (currentIndex + itemCount) \<le> delta \<le> 2 ^ 52\<close> (so for the deltas \<open>1\<close> and \<open>-1\<close>
  that the input channels pass; within these bounds the double arithmetic of the code is
  exact), the index that \<^verbatim>\<open>changeIndexBy\<close> computes is
  \<^verbatim>\<open>((currentIndex + delta) % itemCount + itemCount) % itemCount\<close>, and with the
  index-change callback configured this index is what the one call of the callback
  carries.
\<close>

theorem changeIndexBy_step:
  assumes "1 \<le> length (images p)" and "int (length (images p)) < 2 ^ 32"
    and "0 \<le> currentIndex p" and "currentIndex p < int (length (images p))"
    and "- (currentIndex p + int (length (images p))) \<le> delta" and "delta \<le> 2 ^ 52"
  shows "nextIndex (currentIndex p) delta (int (length (images p)))
           = spec_step (currentIndex p) delta (int (length (images p)))
         \<and> (onIndexChange p \<longrightarrow>
              changeIndexBy p delta
                = [CallIndexChange (spec_step (currentIndex p) delta (int (length (images p))))])"
proof -
  from assms(1) have n: "0 < int (length (images p))" by (cases "images p") simp_all
  from assms(5) have "0 \<le> currentIndex p + delta + int (length (images p))" by simp
  with n have "nextIndex (currentIndex p) delta (int (length (images p)))
              = (currentIndex p + delta) mod int (length (images p))"
    by (rule nextIndex_mod)
  also have "\<dots> = spec_step (currentIndex p) delta (int (length (images p)))"
    using n by (rule spec_step_mod [symmetric])
  finally have eq: "nextIndex (currentIndex p) delta (int (length (images p)))
              = spec_step (currentIndex p) delta (int (length (images p)))" .
  from assms(1) have "length (images p) \<noteq> 0" by (cases "images p") simp_all
  then show ?thesis
    using eq by (simp add: changeIndexBy_def)
qed

theorem changeIndexBy_step_witness:
  "changeIndexBy \<lparr>isOpen = True, images = replicate 3 \<lparr>src = ''a.jpg'', label = ''a''\<rparr>,
      currentIndex = 0, title = ''t'', onPrevious = False, onNext = False,
      onIndexChange = True\<rparr> (- 1) = [CallIndexChange 2]"
  using changeIndexBy_step [of "\<lparr>isOpen = True,
      images = replicate 3 \<lparr>src = ''a.jpg'', label = ''a''\<rparr>,
      currentIndex = 0, title = ''t'', onPrevious = False, onNext = False,
      onIndexChange = True\<rparr>" "- 1"]
  by (simp add: spec_step_def js_rem_def)

theorem changeIndexBy_step_counterexample:
  "nextIndex 0 (- 4) 3 = - 1 \<and> spec_step 0 (- 4) 3 = 2
   \<and> changeIndexBy \<lparr>isOpen = True, images = replicate 3 \<lparr>src = ''a.jpg'', label = ''a''\<rparr>,
        currentIndex = 0, title = ''t'', onPrevious = False, onNext = False,
        onIndexChange = True\<rparr> (- 4) = [CallIndexChange (- 1)]"
  by (simp add: changeIndexBy_def nextIndex_def spec_step_def js_rem_def)

text \<open>
  C2, as the code has it. For every itemCount \<open>\<ge> 1\<close>, with the index-change callback
  configured and an owner that adopts the index it is notified of, and for every finite
  sequence of steps whose deltas are all \<open>\<ge> - itemCount\<close> (so for the deltas \<open>1\<close>
  and \<open>-1\<close> that the input channels pass), starting from any currentIndex in
  \<open>[0, itemCount - 1]\<close>, the currentIndex after each step is in \<open>[0, itemCount - 1]\<close>.
\<close>

theorem stepAll_in_range:
  assumes "1 \<le> length (images p)"
    and "0 \<le> currentIndex p" and "currentIndex p < int (length (images p))"
    and "onIndexChange p"
    and "\<forall>c i. owner c (CallIndexChange i) = i"
    and "\<forall>d\<in>set ds. - int (length (images p)) \<le> d"
  shows "\<forall>i\<in>set (stepAll owner p ds). 0 \<le> i \<and> i < int (length (images p))"
  using assms(1-4,6)
proof (induction ds arbitrary: p)
  case Nil
  then show ?case by simp
next
  case (Cons d ds)
  let ?n = "int (length (images p))"
  let ?q = "step owner p d"
  from Cons.prems(1) have n: "0 < ?n" and ne: "length (images p) \<noteq> 0"
    by (cases "images p"; simp)+
  from Cons.prems(5) have d: "- ?n \<le> d" by simp
  with Cons.prems(2) have nonneg: "0 \<le> currentIndex p + d + ?n" by simp
  have q: "?q = p\<lparr>currentIndex := nextIndex (currentIndex p) d ?n\<rparr>"
    using Cons.prems(4) ne assms(5) by (rule step_direct)
  have r: "0 \<le> nextIndex (currentIndex p) d ?n \<and> nextIndex (currentIndex p) d ?n < ?n"
    using n nonneg by (rule nextIndex_range)
  have same: "images ?q = images p" "onIndexChange ?q = onIndexChange p"
    and cur: "currentIndex ?q = nextIndex (currentIndex p) d ?n"
    by (simp_all add: q)
  have "\<forall>i\<in>set (stepAll owner ?q ds). 0 \<le> i \<and> i < int (length (images ?q))"
  proof (rule Cons.IH)
    show "1 \<le> length (images ?q)" using Cons.prems(1) same by simp
    show "0 \<le> currentIndex ?q" using r cur by simp
    show "currentIndex ?q < int (length (images ?q))" using r cur same by simp
    show "onIndexChange ?q" using Cons.prems(4) same by simp
    show "\<forall>d\<in>set ds. - int (length (images ?q)) \<le> d" using Cons.prems(5) same by simp
  qed
  then show ?case
    using r cur same by simp
qed

theorem stepAll_in_range_witness:
  "stepAll setIndex \<lparr>isOpen = True, images = replicate 3 \<lparr>src = ''a.jpg'', label = ''a''\<rparr>,
      currentIndex = 0, title = ''t'', onPrevious = False, onNext = False,
      onIndexChange = True\<rparr> [- 1, 1, 1, - 3] = [2, 0, 1, 1]
   \<and> list_all (\<lambda>i. 0 \<le> i \<and> i < 3) (stepAll setIndex \<lparr>isOpen = True,
          images = replicate 3 \<lparr>src = ''a.jpg'', label = ''a''\<rparr>,
          currentIndex = 0, title = ''t'', onPrevious = False, onNext = False,
          onIndexChange = True\<rparr> [- 1, 1, 1, - 3])"
proof -
  let ?p = "\<lparr>isOpen = True, images = replicate 3 \<lparr>src = ''a.jpg'', label = ''a''\<rparr>,
      currentIndex = 0, title = ''t'', onPrevious = False, onNext = False,
      onIndexChange = True\<rparr>"
  have run: "stepAll setIndex ?p [- 1, 1, 1, - 3] = [2, 0, 1, 1]"
    by (simp add: step_def changeIndexBy_def nextIndex_def js_rem_def)
  have "\<forall>i\<in>set (stepAll setIndex ?p [- 1, 1, 1, - 3]).
          0 \<le> i \<and> i < int (length (images ?p))"
    by (rule stepAll_in_range) simp_all
  then have "list_all (\<lambda>i. 0 \<le> i \<and> i < 3) (stepAll setIndex ?p [- 1, 1, 1, - 3])"
    unfolding list_all_iff by simp
  with run show ?thesis by (rule conjI)
qed

theorem stepAll_in_range_counterexample:
  "stepAll setIndex \<lparr>isOpen = True, images = replicate 3 \<lparr>src = ''a.jpg'', label = ''a''\<rparr>,
      currentIndex = 0, title = ''t'', onPrevious = False, onNext = False,
      onIndexChange = True\<rparr> [- 4] = [- 1]
   \<and> \<not> (0 \<le> currentIndex (step setIndex \<lparr>isOpen = True,
          images = replicate 3 \<lparr>src = ''a.jpg'', label = ''a''\<rparr>,
          currentIndex = 0, title = ''t'', onPrevious = False, onNext = False,
          onIndexChange = True\<rparr> (- 4)))"
  by (simp add: step_def changeIndexBy_def nextIndex_def js_rem_def)

text \<open>
  C9, as the code has it. For every itemCount \<open>\<ge> 1\<close> and every starting currentIndex
  in \<open>[0, itemCount - 1]\<close>, a step by \<open>1\<close> followed by a step by \<open>-1\<close> restores the
  original currentIndex (and changes nothing else) when both steps are delivered: either
  the index-change callback is configured and the owner adopts the index it is notified
  of, or it is not configured, both legacy callbacks are, and the owner's
  \<^verbatim>\<open>onPrevious\<close> undoes its \<^verbatim>\<open>onNext\<close> at the starting index.
\<close>

theorem step_round_trip:
  assumes "1 \<le> length (images p)"
    and "0 \<le> currentIndex p" and "currentIndex p < int (length (images p))"
    and "(onIndexChange p \<and> (\<forall>c i. owner c (CallIndexChange i) = i))
         \<or> (\<not> onIndexChange p \<and> onPrevious p \<and> onNext p
            \<and> owner (owner (currentIndex p) CallNext) CallPrevious = currentIndex p)"
  shows "step owner (step owner p 1) (- 1) = p"
proof -
  let ?n = "int (length (images p))"
  let ?c = "currentIndex p"
  from assms(1) have n: "0 < ?n" and ne: "length (images p) \<noteq> 0"
    by (cases "images p"; simp)+
  from assms(4) show ?thesis
  proof
    assume direct: "onIndexChange p \<and> (\<forall>c i. owner c (CallIndexChange i) = i)"
    then have on: "onIndexChange p" and adopt: "\<forall>c i. owner c (CallIndexChange i) = i"
      by simp_all
    have q: "step owner p 1 = p\<lparr>currentIndex := nextIndex ?c 1 ?n\<rparr>"
      using on ne adopt by (rule step_direct)
    have "0 \<le> ?c + 1 + ?n" using assms(2) n by linarith
    with n have fwd: "nextIndex ?c 1 ?n = (?c + 1) mod ?n"
      by (rule nextIndex_mod)
    have m: "0 \<le> (?c + 1) mod ?n" using n by (rule pos_mod_sign)
    have "0 \<le> (?c + 1) mod ?n + - 1 + ?n" using m n by linarith
    with n have bwd: "nextIndex ((?c + 1) mod ?n) (- 1) ?n = ((?c + 1) mod ?n + - 1) mod ?n"
      by (rule nextIndex_mod)
    have "((?c + 1) mod ?n + - 1) mod ?n = (?c + 1 + - 1) mod ?n"
      by (rule mod_add_left_eq)
    also have "\<dots> = ?c" using assms(2,3) by simp
    finally have restore: "nextIndex (nextIndex ?c 1 ?n) (- 1) ?n = ?c"
      using fwd bwd by simp
    have q_on: "onIndexChange (step owner p 1)" using on by (simp add: q)
    have q_ne: "length (images (step owner p 1)) \<noteq> 0" using ne by (simp add: q)
    have "step owner (step owner p 1) (- 1)
            = (step owner p 1)\<lparr>currentIndex :=
                nextIndex (currentIndex (step owner p 1)) (- 1)
                  (int (length (images (step owner p 1))))\<rparr>"
      using q_on q_ne adopt by (rule step_direct)
    then show ?thesis
      using restore by (simp add: q)
  next
    assume legacy: "\<not> onIndexChange p \<and> onPrevious p \<and> onNext p
            \<and> owner (owner (currentIndex p) CallNext) CallPrevious = currentIndex p"
    have fwd: "changeIndexBy p 1 = [CallNext]"
      using legacy ne by (simp add: changeIndexBy_def)
    then have q: "step owner p 1 = p\<lparr>currentIndex := owner ?c CallNext\<rparr>"
      by (simp add: step_def)
    have bwd: "changeIndexBy (step owner p 1) (- 1) = [CallPrevious]"
      using legacy ne by (simp add: q changeIndexBy_def)
    have "step owner (step owner p 1) (- 1)
            = (step owner p 1)\<lparr>currentIndex :=
                owner (currentIndex (step owner p 1)) CallPrevious\<rparr>"
      using bwd by (simp add: step_def)
    then show ?thesis
      using legacy by (simp add: q)
  qed
qed

theorem step_round_trip_witness:
  "step setIndex (step setIndex \<lparr>isOpen = True,
      images = replicate 3 \<lparr>src = ''a.jpg'', label = ''a''\<rparr>,
      currentIndex = 2, title = ''t'', onPrevious = False, onNext = False,
      onIndexChange = True\<rparr> 1) (- 1)
   = \<lparr>isOpen = True, images = replicate 3 \<lparr>src = ''a.jpg'', label = ''a''\<rparr>,
      currentIndex = 2, title = ''t'', onPrevious = False, onNext = False,
      onIndexChange = True\<rparr>
   \<and> currentIndex (step setIndex \<lparr>isOpen = True,
        images = replicate 3 \<lparr>src = ''a.jpg'', label = ''a''\<rparr>,
        currentIndex = 2, title = ''t'', onPrevious = False, onNext = False,
        onIndexChange = True\<rparr> 1) = 0
   \<and> step (legacyOwner 3) (step (legacyOwner 3) \<lparr>isOpen = True,
      images = replicate 3 \<lparr>src = ''a.jpg'', label = ''a''\<rparr>,
      currentIndex = 2, title = ''t'', onPrevious = True, onNext = True,
      onIndexChange = False\<rparr> 1) (- 1)
   = \<lparr>isOpen = True, images = replicate 3 \<lparr>src = ''a.jpg'', label = ''a''\<rparr>,
      currentIndex = 2, title = ''t'', onPrevious = True, onNext = True,
      onIndexChange = False\<rparr>
   \<and> currentIndex (step (legacyOwner 3) \<lparr>isOpen = True,
        images = replicate 3 \<lparr>src = ''a.jpg'', label = ''a''\<rparr>,
        currentIndex = 2, title = ''t'', onPrevious = True, onNext = True,
        onIndexChange = False\<rparr> 1) = 0"
proof -
  let ?p = "\<lparr>isOpen = True, images = replicate 3 \<lparr>src = ''a.jpg'', label = ''a''\<rparr>,
      currentIndex = 2, title = ''t'', onPrevious = False, onNext = False,
      onIndexChange = True\<rparr>"
  let ?q = "\<lparr>isOpen = True, images = replicate 3 \<lparr>src = ''a.jpg'', label = ''a''\<rparr>,
      currentIndex = 2, title = ''t'', onPrevious = True, onNext = True,
      onIndexChange = False\<rparr>"
  have "step setIndex (step setIndex ?p 1) (- 1) = ?p"
    by (rule step_round_trip) simp_all
  moreover have "currentIndex (step setIndex ?p 1) = 0"
    by (simp add: step_def changeIndexBy_def nextIndex_def js_rem_def)
  moreover have "step (legacyOwner 3) (step (legacyOwner 3) ?q 1) (- 1) = ?q"
    by (rule step_round_trip) simp_all
  moreover have "currentIndex (step (legacyOwner 3) ?q 1) = 0"
    by (simp add: step_def changeIndexBy_def)
  ultimately show ?thesis by simp
qed

theorem step_round_trip_counterexample:
  "currentIndex (step (legacyOwner 3) \<lparr>isOpen = True,
      images = replicate 3 \<lparr>src = ''a.jpg'', label = ''a''\<rparr>,
      currentIndex = 0, title = ''t'', onPrevious = False, onNext = True,
      onIndexChange = False\<rparr> 1) = 1
   \<and> changeIndexBy \<lparr>isOpen = True,
      images = replicate 3 \<lparr>src = ''a.jpg'', label = ''a''\<rparr>,
      currentIndex = 1, title = ''t'', onPrevious = False, onNext = True,
      onIndexChange = False\<rparr> (- 1) = []
   \<and> currentIndex (step (legacyOwner 3) (step (legacyOwner 3) \<lparr>isOpen = True,
      images = replicate 3 \<lparr>src = ''a.jpg'', label = ''a''\<rparr>,
      currentIndex = 0, title = ''t'', onPrevious = False, onNext = True,
      onIndexChange = False\<rparr> 1) (- 1)) = 1"
  by (simp add: step_def changeIndexBy_def)

section \<open>Direct selection\<close>



section \<open>The wheel\<close>

text \<open>
  C4. While the viewer is open and itemCount \<open>> 1\<close>, a wheel event with vertical delta
  \<open>> 0\<close> causes exactly one step by \<open>1\<close> and one with vertical delta \<open>< 0\<close> exactly
  one step by \<open>-1\<close> (after \<^verbatim>\<open>preventDefault\<close>); while the viewer is closed or
  itemCount \<open>\<le> 1\<close>, a wheel event causes nothing.
\<close>

theorem handleWheel_steps:
  "(isOpen p \<and> 1 < length (images p) \<longrightarrow>
      (0 < deltaY \<longrightarrow> handleWheel p deltaY = PreventDefault # changeIndexBy p 1)
    \<and> (deltaY < 0 \<longrightarrow> handleWheel p deltaY = PreventDefault # changeIndexBy p (- 1)))
   \<and> (\<not> isOpen p \<or> length (images p) \<le> 1 \<longrightarrow> handleWheel p deltaY = [])"
  by (simp add: handleWheel_def)

theorem handleWheel_steps_witness:
  "handleWheel \<lparr>isOpen = True, images = replicate 3 \<lparr>src = ''a.jpg'', label = ''a''\<rparr>,
      currentIndex = 2, title = ''t'', onPrevious = False, onNext = False,
      onIndexChange = True\<rparr> 120 = [PreventDefault, CallIndexChange 0]
   \<and> handleWheel \<lparr>isOpen = True, images = replicate 3 \<lparr>src = ''a.jpg'', label = ''a''\<rparr>,
      currentIndex = 2, title = ''t'', onPrevious = False, onNext = False,
      onIndexChange = True\<rparr> (- 120) = [PreventDefault, CallIndexChange 1]
   \<and> handleWheel \<lparr>isOpen = False, images = replicate 3 \<lparr>src = ''a.jpg'', label = ''a''\<rparr>,
      currentIndex = 2, title = ''t'', onPrevious = False, onNext = False,
      onIndexChange = True\<rparr> 120 = []"
proof -
  let ?im = "replicate 3 \<lparr>src = ''a.jpg'', label = ''a''\<rparr>"
  let ?p = "\<lparr>isOpen = True, images = ?im, currentIndex = 2, title = ''t'',
      onPrevious = False, onNext = False, onIndexChange = True\<rparr>"
  let ?q = "\<lparr>isOpen = False, images = ?im, currentIndex = 2, title = ''t'',
      onPrevious = False, onNext = False, onIndexChange = True\<rparr>"
  have "handleWheel ?p 120 = [PreventDefault, CallIndexChange 0]"
    using handleWheel_steps [of ?p 120]
    by (simp add: changeIndexBy_def nextIndex_def js_rem_def)
  moreover have "handleWheel ?p (- 120) = [PreventDefault, CallIndexChange 1]"
    using handleWheel_steps [of ?p "- 120"]
    by (simp add: changeIndexBy_def nextIndex_def js_rem_def)
  moreover have "handleWheel ?q 120 = []"
    using handleWheel_steps [of ?q 120] by simp
  ultimately show ?thesis by simp
qed

text \<open>
  C10. A wheel event whose vertical delta is exactly \<open>0\<close>, arriving while the viewer is
  open and itemCount \<open>> 1\<close>, performs the step by \<open>-1\<close>, as a negative delta does.
\<close>

theorem handleWheel_zero:
  assumes "isOpen p" and "1 < length (images p)"
  shows "handleWheel p 0 = PreventDefault # changeIndexBy p (- 1)"
  using assms by (simp add: handleWheel_def)

theorem handleWheel_zero_witness:
  "handleWheel \<lparr>isOpen = True, images = replicate 3 \<lparr>src = ''a.jpg'', label = ''a''\<rparr>,
      currentIndex = 0, title = ''t'', onPrevious = False, onNext = False,
      onIndexChange = True\<rparr> 0 = [PreventDefault, CallIndexChange 2]"
  using handleWheel_zero [of "\<lparr>isOpen = True,
      images = replicate 3 \<lparr>src = ''a.jpg'', label = ''a''\<rparr>,
      currentIndex = 0, title = ''t'', onPrevious = False, onNext = False,
      onIndexChange = True\<rparr>"]
  by (simp add: changeIndexBy_def nextIndex_def js_rem_def)

section \<open>The swipe\<close>

text \<open>
  C5, as the code has it. A touch starts at \<open>s\<close> (\<^verbatim>\<open>touchStartX\<close>). For each move to
  \<open>x\<close> the handler computes \<^verbatim>\<open>diff = touchStartX - clientX\<close>, the start minus the
  current position (\<open>rnd (s - x)\<close>, the double difference): the opposite of the finger's
  displacement. Moves whose \<open>diff\<close> has an absolute value of at most \<open>50\<close> cause
  nothing and keep the start of the touch; this is so whenever the exact difference is at
  most \<open>50\<close> in absolute value (rounding is monotone and exact at \<open>50\<close> and \<open>-50\<close>).
  The first move whose \<open>diff\<close> is above \<open>50\<close> (the finger has moved left) causes
  exactly one step by \<open>1\<close>, the first whose \<open>diff\<close> is below \<open>-50\<close> (the finger has
  moved right) exactly one step by \<open>-1\<close>; the gesture is then reset, and whatever moves
  follow in the same touch cause nothing more.
\<close>

theorem swipe_threshold:
  assumes "list_all (withinThreshold rnd s) pre"
  shows "onTouchStart (s # others) = Inr (Some s)
   \<and> touchMoves rnd p (Some s) pre = Inr ([], Some s)
   \<and> (50 < rnd (s - x) \<longrightarrow>
        touchMoves rnd p (Some s) (pre @ (x # r) # rest) = Inr (changeIndexBy p 1, None))
   \<and> (rnd (s - x) < - 50 \<longrightarrow>
        touchMoves rnd p (Some s) (pre @ (x # r) # rest) = Inr (changeIndexBy p (- 1), None))
   \<and> (\<bar>rnd (s - x)\<bar> \<le> 50 \<longrightarrow>
        touchMoves rnd p (Some s) (pre @ [x # r]) = Inr ([], Some s))
   \<and> (mono rnd \<and> rnd 50 = 50 \<and> rnd (- 50) = - 50 \<and> \<bar>s - x\<bar> \<le> 50 \<longrightarrow>
        touchMoves rnd p (Some s) (pre @ [x # r]) = Inr ([], Some s))"
proof -
  have skip: "touchMoves rnd p (Some s) (pre @ es) = touchMoves rnd p (Some s) es" for es
    using assms by (rule touchMoves_within)
  have none: "touchMoves rnd p (Some s) pre = Inr ([], Some s)"
    using skip [of "[]"] by simp
  have up: "touchMoves rnd p (Some s) (pre @ (x # r) # rest) = Inr (changeIndexBy p 1, None)"
    if "50 < rnd (s - x)"
    using that by (simp add: skip onTouchMove_def touchMoves_reset)
  have down: "touchMoves rnd p (Some s) (pre @ (x # r) # rest) = Inr (changeIndexBy p (- 1), None)"
    if "rnd (s - x) < - 50"
    using that by (simp add: skip onTouchMove_def touchMoves_reset)
  have stay: "touchMoves rnd p (Some s) (pre @ [x # r]) = Inr ([], Some s)"
    if "\<bar>rnd (s - x)\<bar> \<le> 50"
    using that by (simp add: skip onTouchMove_def)
  have exact: "touchMoves rnd p (Some s) (pre @ [x # r]) = Inr ([], Some s)"
    if "mono rnd \<and> rnd 50 = 50 \<and> rnd (- 50) = - 50 \<and> \<bar>s - x\<bar> \<le> 50"
  proof -
    from that have "\<bar>rnd (s - x)\<bar> \<le> 50" by (simp add: rnd_within)
    then show ?thesis by (rule stay)
  qed
  show ?thesis
    using none up down stay exact by (simp add: onTouchStart_def)
qed

theorem swipe_threshold_witness:
  "touchMoves id \<lparr>isOpen = True, images = replicate 3 \<lparr>src = ''a.jpg'', label = ''a''\<rparr>,
      currentIndex = 0, title = ''t'', onPrevious = False, onNext = False,
      onIndexChange = True\<rparr> (Some 200) [[180], [100], [40], [0]]
     = Inr ([CallIndexChange 1], None)
   \<and> touchMoves id \<lparr>isOpen = True, images = replicate 3 \<lparr>src = ''a.jpg'', label = ''a''\<rparr>,
      currentIndex = 0, title = ''t'', onPrevious = False, onNext = False,
      onIndexChange = True\<rparr> (Some 200) [[180], [300], [380]]
     = Inr ([CallIndexChange 2], None)
   \<and> touchMoves id \<lparr>isOpen = True, images = replicate 3 \<lparr>src = ''a.jpg'', label = ''a''\<rparr>,
      currentIndex = 0, title = ''t'', onPrevious = False, onNext = False,
      onIndexChange = True\<rparr> (Some 200) [[180], [170]] = Inr ([], Some 200)"
proof -
  let ?p = "\<lparr>isOpen = True, images = replicate 3 \<lparr>src = ''a.jpg'', label = ''a''\<rparr>,
      currentIndex = 0, title = ''t'', onPrevious = False, onNext = False,
      onIndexChange = True\<rparr>"
  have pre: "list_all (withinThreshold id 200) [[180]]"
    by (simp add: withinThreshold_def)
  have "touchMoves id ?p (Some 200) [[180], [100], [40], [0]] = Inr ([CallIndexChange 1], None)"
    using swipe_threshold [OF pre, where x = 100 and p = ?p and r = "[]"
        and rest = "[[40], [0]]" and others = "[]"]
    by (simp add: changeIndexBy_def nextIndex_def js_rem_def)
  moreover have "touchMoves id ?p (Some 200) [[180], [300], [380]]
      = Inr ([CallIndexChange 2], None)"
    using swipe_threshold [OF pre, where x = 300 and p = ?p and r = "[]"
        and rest = "[[380]]" and others = "[]"]
    by (simp add: changeIndexBy_def nextIndex_def js_rem_def)
  moreover have "touchMoves id ?p (Some 200) [[180], [170]] = Inr ([], Some 200)"
    using swipe_threshold [OF pre, where x = 170 and p = ?p and r = "[]"
        and rest = "[]" and others = "[]"]
    by (simp add: mono_def)
  ultimately show ?thesis by simp
qed

text \<open>
  The finger moves right from \<open>200\<close> to \<open>300\<close>, a displacement of \<open>100\<close> whose sign is
  \<open>1\<close> (the difference \<open>200 - 300\<close> is exact in doubles): the step is the one by
  \<open>-1\<close>, from index \<open>0\<close> of \<open>3\<close> to index \<open>2\<close>, and not the one by \<open>1\<close>.
\<close>

theorem swipe_threshold_counterexample:
  "onTouchMove id \<lparr>isOpen = True, images = replicate 3 \<lparr>src = ''a.jpg'', label = ''a''\<rparr>,
      currentIndex = 0, title = ''t'', onPrevious = False, onNext = False,
      onIndexChange = True\<rparr> (Some 200) [300] = Inr ([CallIndexChange 2], None)
   \<and> changeIndexBy \<lparr>isOpen = True, images = replicate 3 \<lparr>src = ''a.jpg'', label = ''a''\<rparr>,
      currentIndex = 0, title = ''t'', onPrevious = False, onNext = False,
      onIndexChange = True\<rparr> (- 1) = [CallIndexChange 2]
   \<and> changeIndexBy \<lparr>isOpen = True, images = replicate 3 \<lparr>src = ''a.jpg'', label = ''a''\<rparr>,
      currentIndex = 0, title = ''t'', onPrevious = False, onNext = False,
      onIndexChange = True\<rparr> 1 = [CallIndexChange 1]"
  by (simp add: onTouchMove_def changeIndexBy_def nextIndex_def js_rem_def)

section \<open>The empty gallery\<close>

text \<open>
  C6. With no items, no input channel changes the index or calls a navigation callback:
  a wheel event causes nothing, a touch move calls nothing, a key calls none of
  \<^verbatim>\<open>onIndexChange\<close>, \<^verbatim>\<open>onPrevious\<close>, \<^verbatim>\<open>onNext\<close> (Escape still closes), and
  there is no dot to select; the viewer renders nothing, open or not.
\<close>

theorem empty_gallery_inert:
  assumes "length (images p) = 0"
  shows "handleWheel p deltaY = []
         \<and> effectsOf (onTouchMove rnd p st targetTouches) = []
         \<and> filter isNavigation (keyHandler p k) = []
         \<and> selectDot p idx = []
         \<and> render p = None"
proof -
  from assms have c: "changeIndexBy p d = []" for d
    by (simp add: changeIndexBy_def)
  have "handleWheel p deltaY = []"
    using assms by (simp add: handleWheel_def)
  moreover have "effectsOf (onTouchMove rnd p st targetTouches) = []"
    by (simp add: effectsOf_def onTouchMove_def Let_def c split: option.split list.split)
  moreover have "filter isNavigation (keyHandler p k) = []"
    by (simp add: keyHandler_def c)
  moreover have r: "render p = None"
    using assms by (simp add: render_def)
  moreover have "selectDot p idx = []"
    by (simp add: selectDot_def r)
  ultimately show ?thesis by simp
qed

theorem empty_gallery_inert_witness:
  "handleWheel \<lparr>isOpen = True, images = [], currentIndex = 0, title = ''t'',
      onPrevious = True, onNext = True, onIndexChange = True\<rparr> 120 = []
   \<and> effectsOf (onTouchMove id \<lparr>isOpen = True, images = [], currentIndex = 0, title = ''t'',
      onPrevious = True, onNext = True, onIndexChange = True\<rparr> (Some 200) [100]) = []
   \<and> filter isNavigation (keyHandler \<lparr>isOpen = True, images = [], currentIndex = 0,
      title = ''t'', onPrevious = True, onNext = True, onIndexChange = True\<rparr>
      ''ArrowRight'') = []
   \<and> selectDot \<lparr>isOpen = True, images = [], currentIndex = 0, title = ''t'',
      onPrevious = True, onNext = True, onIndexChange = True\<rparr> 0 = []
   \<and> render \<lparr>isOpen = True, images = [], currentIndex = 0, title = ''t'',
      onPrevious = True, onNext = True, onIndexChange = True\<rparr> = None"
  using empty_gallery_inert [of "\<lparr>isOpen = True, images = [], currentIndex = 0,
      title = ''t'', onPrevious = True, onNext = True, onIndexChange = True\<rparr>"
      120 id "Some 200" "[100]" "''ArrowRight''" 0]
  by simp

section \<open>The icon layout\<close>

text \<open>
  C7. For every icon and every image layout, the layout places the icon at
  \<open>pixelX = imageOffsetX + (xPercent / 100) * imageWidth\<close> and
  \<open>pixelY = imageOffsetY + (yPercent / 100) * imageHeight\<close> with
  \<open>pixelSize = sizePixels * scale\<close>, in the order of the icons; icons \<open>a\<close> at
  \<open>(0, 0)\<close> and \<open>b\<close> at \<open>(100, 100)\<close> on an image of width \<open>200\<close> and height
  \<open>100\<close> at offset \<open>(10, 5)\<close> with scale \<open>1\<close> are placed at \<open>(10, 5)\<close> and
  \<open>(210, 105)\<close>.
\<close>

theorem MapContent_layout:
  "map pixelX (MapContent icons g sc)
     = map (\<lambda>icon. offsetLeft g + (xPercent icon / 100) * imageWidth g) icons
   \<and> map pixelY (MapContent icons g sc)
     = map (\<lambda>icon. offsetTop g + (yPercent icon / 100) * imageHeight g) icons
   \<and> map pixelSize (MapContent icons g sc) = map (\<lambda>icon. sizePixels icon * sc) icons
   \<and> map layoutId (MapContent icons g sc) = map iconId icons
   \<and> MapContent
        [\<lparr>iconId = ''a'', xPercent = 0, yPercent = 0, sizePixels = sa\<rparr>,
         \<lparr>iconId = ''b'', xPercent = 100, yPercent = 100, sizePixels = sb\<rparr>]
        \<lparr>imageWidth = 200, imageHeight = 100, offsetLeft = 10, offsetTop = 5\<rparr> 1
      = [\<lparr>layoutId = ''a'', pixelX = 10, pixelY = 5, pixelSize = sa, zIndex = 10\<rparr>,
         \<lparr>layoutId = ''b'', pixelX = 210, pixelY = 105, pixelSize = sb, zIndex = 11\<rparr>]"
proof -
  have "map pixelX (MapContent icons g sc)
          = map (\<lambda>icon. offsetLeft g + (xPercent icon / 100) * imageWidth g) icons"
    using map_snd_enumerate_fun [of "\<lambda>icon. offsetLeft g + (xPercent icon / 100) * imageWidth g" 0 icons]
    by (simp add: MapContent_def MapIconComponent_def case_prod_unfold comp_def)
  moreover have "map pixelY (MapContent icons g sc)
          = map (\<lambda>icon. offsetTop g + (yPercent icon / 100) * imageHeight g) icons"
    using map_snd_enumerate_fun [of "\<lambda>icon. offsetTop g + (yPercent icon / 100) * imageHeight g" 0 icons]
    by (simp add: MapContent_def MapIconComponent_def case_prod_unfold comp_def)
  moreover have "map pixelSize (MapContent icons g sc) = map (\<lambda>icon. sizePixels icon * sc) icons"
    using map_snd_enumerate_fun [of "\<lambda>icon. sizePixels icon * sc" 0 icons]
    by (simp add: MapContent_def MapIconComponent_def case_prod_unfold comp_def)
  moreover have "map layoutId (MapContent icons g sc) = map iconId icons"
    using map_snd_enumerate_fun [of iconId 0 icons]
    by (simp add: MapContent_def MapIconComponent_def case_prod_unfold comp_def)
  moreover have "MapContent
        [\<lparr>iconId = ''a'', xPercent = 0, yPercent = 0, sizePixels = sa\<rparr>,
         \<lparr>iconId = ''b'', xPercent = 100, yPercent = 100, sizePixels = sb\<rparr>]
        \<lparr>imageWidth = 200, imageHeight = 100, offsetLeft = 10, offsetTop = 5\<rparr> 1
      = [\<lparr>layoutId = ''a'', pixelX = 10, pixelY = 5, pixelSize = sa, zIndex = 10\<rparr>,
         \<lparr>layoutId = ''b'', pixelX = 210, pixelY = 105, pixelSize = sb, zIndex = 11\<rparr>]"
    by (simp add: MapContent_def MapIconComponent_def)
  ultimately show ?thesis by simp
qed

section \<open>The viewport transform configuration\<close>




end
